theory Spec2Isabelle
  imports Complex_Main
begin

section \<open>Python values used by the melody generator\<close>

text \<open>
  The repository has two Python files: \<^verbatim>\<open>preprocessing.py\<close> (corpus filter, encoder,
  corpus merger, vocabulary mapper) and \<^verbatim>\<open>app.py\<close> (autoregressive generator and
  notation renderer). Both sit on music21, numpy and keras; what those libraries
  compute is taken as data or as a parameter, and the code of the repository itself is
  translated function by function.

  Strings are lists of code points below 256, one \<^typ>\<open>char\<close> each. Quarter lengths are
  exact rationals: music21 hands them out as binary floats or as \<^verbatim>\<open>Fraction\<close>s, and
  the only time step the repository uses is \<^verbatim>\<open>0.25\<close>, a power of two, for which the
  float division is exact.
\<close>

datatype error =
    KeyError string
  | IndexError
  | ValueError string
  | UnboundLocalError string
  | ZeroDivisionError
  | FileNotFoundError string
  | JSONDecodeError string
  | LibraryError

subsection \<open>\<^verbatim>\<open>str.split()\<close>, \<^verbatim>\<open>" ".join\<close>, \<^verbatim>\<open>str(int)\<close>, \<^verbatim>\<open>int(str)\<close>, \<^verbatim>\<open>int(float)\<close>\<close>

text \<open>The code points below 256 for which \<^verbatim>\<open>str.isspace\<close> holds.\<close>

definition is_space :: "char \<Rightarrow> bool" where
  "is_space c = (c \<in> set [CHR 0x09, CHR 0x0A, CHR 0x0B, CHR 0x0C, CHR 0x0D,
                           CHR 0x1C, CHR 0x1D, CHR 0x1E, CHR 0x1F, CHR 0x20,
                           CHR 0x85, CHR 0xA0])"

text \<open>
  \<^verbatim>\<open>s.split()\<close> without arguments: the maximal runs of characters that are not
  white space, in order; no empty string is ever produced. \<open>cur\<close> is the word being read.
\<close>

fun split_from :: "string \<Rightarrow> string \<Rightarrow> string list" where
  "split_from cur [] = (if cur = [] then [] else [cur])"
| "split_from cur (c # cs) =
     (if is_space c then (if cur = [] then split_from [] cs else cur # split_from [] cs)
      else split_from (cur @ [c]) cs)"

definition py_split :: "string \<Rightarrow> string list" where
  "py_split s = split_from [] s"

fun py_join :: "string \<Rightarrow> string list \<Rightarrow> string" where
  "py_join sep [] = []"
| "py_join sep [x] = x"
| "py_join sep (x # y # ys) = x @ sep @ py_join sep (y # ys)"

text \<open>\<^verbatim>\<open>s[:-1]\<close>: all but the last character; the empty string stays empty.\<close>

definition py_drop_last :: "'a list \<Rightarrow> 'a list" where
  "py_drop_last s = take (length s - 1) s"

text \<open>\<^verbatim>\<open>xs[-m:]\<close>: the last \<open>m\<close> elements for a positive \<open>m\<close>, the whole list for
  \<open>m = 0\<close> (the slice is then \<^verbatim>\<open>xs[0:]\<close>), and \<^verbatim>\<open>xs[|m|:]\<close> for a negative \<open>m\<close>.\<close>

definition py_slice_from_neg :: "int \<Rightarrow> 'a list \<Rightarrow> 'a list" where
  "py_slice_from_neg m xs =
     (if 0 < m then drop (length xs - nat m) xs else drop (nat (- m)) xs)"

text \<open>\<^verbatim>\<open>xs[i]\<close> and \<^verbatim>\<open>xs[a:b]\<close>: a negative index counts from the end; an index out of
  range raises, a slice bound out of range is clipped.\<close>

definition py_index :: "'a list \<Rightarrow> int \<Rightarrow> error + 'a" where
  "py_index xs i =
     (let n = int (length xs); j = (if i < 0 then i + n else i)
      in if j < 0 \<or> n \<le> j then Inl IndexError else Inr (xs ! nat j))"

definition py_clip :: "nat \<Rightarrow> int \<Rightarrow> nat" where
  "py_clip n a = (if a < 0 then nat (a + int n) else min (nat a) n)"

definition py_slice :: "'a list \<Rightarrow> int \<Rightarrow> int \<Rightarrow> 'a list" where
  "py_slice xs a b =
     (let lo = py_clip (length xs) a; hi = py_clip (length xs) b
      in take (hi - lo) (drop lo xs))"

fun str_nat :: "nat \<Rightarrow> string" where
  "str_nat n =
     (if n < 10 then [''0123456789'' ! n]
      else str_nat (n div 10) @ [''0123456789'' ! (n mod 10)])"

declare str_nat.simps [simp del]

definition str_int :: "int \<Rightarrow> string" where
  "str_int i = (if i < 0 then CHR ''-'' # str_nat (nat (- i)) else str_nat (nat i))"

definition is_digit :: "char \<Rightarrow> bool" where
  "is_digit c = (c \<in> set ''0123456789'')"

definition digit_val :: "char \<Rightarrow> nat" where
  "digit_val c = of_char c - 48"

text \<open>
  \<^verbatim>\<open>int(s)\<close> on a string: surrounding white space is stripped, one sign is allowed,
  then decimal digits, where single underscores may stand between two digits.
  Anything else is a \<^verbatim>\<open>ValueError\<close>.
\<close>

fun digits_value :: "nat \<Rightarrow> string \<Rightarrow> nat option" where
  "digits_value acc [] = Some acc"
| "digits_value acc (c # cs) =
     (if is_digit c then digits_value (10 * acc + digit_val c) cs
      else if c = CHR ''_'' then
        (case cs of
           [] \<Rightarrow> None
         | d # ds \<Rightarrow> if is_digit d then digits_value (10 * acc + digit_val d) ds else None)
      else None)"

definition unsigned_value :: "string \<Rightarrow> nat option" where
  "unsigned_value s =
     (case s of
        [] \<Rightarrow> None
      | c # cs \<Rightarrow> if is_digit c then digits_value (digit_val c) cs else None)"

definition py_strip :: "string \<Rightarrow> string" where
  "py_strip s = rev (dropWhile is_space (rev (dropWhile is_space s)))"

definition int_of_str :: "string \<Rightarrow> error + int" where
  "int_of_str s =
     (let body = py_strip s;
          parsed = (case body of
                      [] \<Rightarrow> None
                    | c # cs \<Rightarrow>
                        if c = CHR ''-'' then map_option (\<lambda>n. - int n) (unsigned_value cs)
                        else if c = CHR ''+'' then map_option int (unsigned_value cs)
                        else map_option int (unsigned_value body))
      in case parsed of None \<Rightarrow> Inl (ValueError s) | Some i \<Rightarrow> Inr i)"

text \<open>\<^verbatim>\<open>int(x)\<close> on a number: truncation towards zero.\<close>

definition int_of_num :: "rat \<Rightarrow> int" where
  "int_of_num q = (if 0 \<le> q then \<lfloor>q\<rfloor> else \<lceil>q\<rceil>)"

section \<open>Scores and the corpus filter (\<^verbatim>\<open>preprocessing.py\<close>)\<close>

text \<open>
  An element of \<^verbatim>\<open>song.flat.notesAndRests\<close>: a note with its MIDI pitch, a rest, or
  any other element the library lists there (a chord), for which neither
  \<^verbatim>\<open>isinstance\<close> test of the encoder holds. Each carries
  \<^verbatim>\<open>duration.quarterLength\<close>.
\<close>

datatype event = Note int rat | Rest rat | Other rat

fun quarterLength :: "event \<Rightarrow> rat" where
  "quarterLength (Note p d) = d"
| "quarterLength (Rest d) = d"
| "quarterLength (Other d) = d"


text \<open>
  A parsed score. The encoder and the filter read only the flattened notes and rests;
  everything else the library keeps (parts, measures, key) is \<open>score_rest\<close>, which
  only the transposer looks at.
\<close>

record 'a song =
  notesAndRests :: "event list"
  score_rest :: 'a

definition SEQUENCE_LENGTH :: int where
  "SEQUENCE_LENGTH = 64"

definition SAVE_DIR :: string where
  "SAVE_DIR = ''Dataset''"

definition MAPPING_PATH :: string where
  "MAPPING_PATH = ''Mapping.json''"

definition ACCEPTABLE_DURATIONS :: "rat list" where
  "ACCEPTABLE_DURATIONS = [1 / 4, 1 / 2, 3 / 4, 1, 3 / 2, 2, 3, 4]"

text \<open>
  The loop of \<^verbatim>\<open>has_acceptable_durations\<close>. The source tests against the global
  list and never reads its second parameter.
\<close>

fun durations_loop :: "event list \<Rightarrow> bool" where
  "durations_loop [] = True"
| "durations_loop (note # rest) =
     (if quarterLength note \<notin> set ACCEPTABLE_DURATIONS then False else durations_loop rest)"

definition has_acceptable_durations :: "'a song \<Rightarrow> rat list \<Rightarrow> bool" where
  "has_acceptable_durations song acceptable_durations = durations_loop (notesAndRests song)"

section \<open>The encoder\<close>

text \<open>What \<^verbatim>\<open>encoded_song\<close> holds before \<^verbatim>\<open>map(str, ...)\<close>: MIDI numbers and strings.\<close>

datatype pyval = PInt int | PStr string

fun str :: "pyval \<Rightarrow> string" where
  "str (PInt i) = str_int i"
| "str (PStr s) = s"

text \<open>
  The inner loop \<^verbatim>\<open>for step in range(steps)\<close>. Reading \<^verbatim>\<open>symbol\<close> at step 0
  raises when no note or rest has bound it yet.
\<close>

definition steps_loop :: "pyval option \<Rightarrow> int \<Rightarrow> error + pyval list" where
  "steps_loop symbol steps =
     (if steps \<le> 0 then Inr []
      else case symbol of
             None \<Rightarrow> Inl (UnboundLocalError ''symbol'')
           | Some s \<Rightarrow>
               Inr (map (\<lambda>step. if step = 0 then s else PStr ''_'') [0..<nat steps]))"

text \<open>
  The outer loop over the events: \<open>symbol\<close> is the local variable of that name (unbound
  at first, and left as it was by an event that is neither note nor rest),
  \<open>encoded_song\<close> the list built so far.
\<close>

fun encode_loop ::
  "event list \<Rightarrow> rat \<Rightarrow> pyval option \<Rightarrow> pyval list \<Rightarrow> error + pyval list" where
  "encode_loop [] time_step symbol encoded_song = Inr encoded_song"
| "encode_loop (event # events) time_step symbol encoded_song =
     (let symbol' = (case event of
                       Note p d \<Rightarrow> Some (PInt p)
                     | Rest d \<Rightarrow> Some (PStr ''r'')
                     | Other d \<Rightarrow> symbol)
      in if time_step = 0 then Inl ZeroDivisionError
         else case steps_loop symbol' (int_of_num (quarterLength event / time_step)) of
                Inl e \<Rightarrow> Inl e
              | Inr appended \<Rightarrow> encode_loop events time_step symbol' (encoded_song @ appended))"

definition encode_song :: "'a song \<Rightarrow> rat \<Rightarrow> error + string" where
  "encode_song song time_step =
     (case encode_loop (notesAndRests song) time_step None [] of
        Inl e \<Rightarrow> Inl e
      | Inr encoded_song \<Rightarrow> Inr (py_join '' '' (map str encoded_song)))"

section \<open>Files, the corpus merger and the vocabulary mapper\<close>

text \<open>
  The files the pipeline touches: a token file is its text, the vocabulary file is the
  object \<^verbatim>\<open>json.dump\<close> wrote, kept as the dictionary itself (insertion-ordered,
  token string to integer id). The JSON text is not modelled, so reading a token file
  with \<^verbatim>\<open>json.load\<close> is a decode error and reading the vocabulary file as text is
  outside the model (an error too). Writing always succeeds.
\<close>

type_synonym dict = "(string \<times> int) list"

datatype file_content = Text string | Json dict

type_synonym files = "string \<Rightarrow> file_content option"

definition SINGLE_FILE_DATASET :: string where
  "SINGLE_FILE_DATASET = ''Dataset_file''"

text \<open>\<^verbatim>\<open>mappings[k]\<close> and \<^verbatim>\<open>mappings[k] = v\<close> on an insertion-ordered dictionary.\<close>

definition dict_get :: "dict \<Rightarrow> string \<Rightarrow> error + int" where
  "dict_get mappings k =
     (case map_of mappings k of None \<Rightarrow> Inl (KeyError k) | Some v \<Rightarrow> Inr v)"

definition dict_set :: "dict \<Rightarrow> string \<Rightarrow> int \<Rightarrow> dict" where
  "dict_set mappings k v =
     (if k \<in> set (map fst mappings)
      then map (\<lambda>(k', v'). if k' = k then (k', v) else (k', v')) mappings
      else mappings @ [(k, v)])"

text \<open>\<^verbatim>\<open>os.path.join\<close> of two components, as \<^verbatim>\<open>posixpath\<close> does it.\<close>

definition os_path_join :: "string \<Rightarrow> string \<Rightarrow> string" where
  "os_path_join a b =
     (if b \<noteq> [] \<and> hd b = CHR ''/'' then b
      else if a = [] \<or> last a = CHR ''/'' then a @ b
      else a @ ''/'' @ b)"

definition load :: "files \<Rightarrow> string \<Rightarrow> error + string" where
  "load fs file_path =
     (case fs file_path of
        None \<Rightarrow> Inl (FileNotFoundError file_path)
      | Some (Text song) \<Rightarrow> Inr song
      | Some (Json m) \<Rightarrow> Inl (ValueError file_path))"

definition json_load :: "files \<Rightarrow> string \<Rightarrow> error + dict" where
  "json_load fs file_path =
     (case fs file_path of
        None \<Rightarrow> Inl (FileNotFoundError file_path)
      | Some (Text s) \<Rightarrow> Inl (JSONDecodeError file_path)
      | Some (Json mappings) \<Rightarrow> Inr mappings)"

subsection \<open>\<^verbatim>\<open>create_single_file_dataset\<close>\<close>

text \<open>
  The two nested loops over what \<^verbatim>\<open>os.walk(dataset_path)\<close> yields (triples of a
  directory, its subdirectories and its files); \<open>songs\<close> is the string built so far.
\<close>

fun files_loop :: "files \<Rightarrow> string \<Rightarrow> string list \<Rightarrow> string \<Rightarrow> string \<Rightarrow> error + string" where
  "files_loop fs path [] new_song_delimeter songs = Inr songs"
| "files_loop fs path (file # rest) new_song_delimeter songs =
     (case load fs (os_path_join path file) of
        Inl e \<Rightarrow> Inl e
      | Inr song \<Rightarrow>
          files_loop fs path rest new_song_delimeter (songs @ song @ '' '' @ new_song_delimeter))"

fun walk_loop ::
  "files \<Rightarrow> (string \<times> string list \<times> string list) list \<Rightarrow> string \<Rightarrow> string \<Rightarrow> error + string" where
  "walk_loop fs [] new_song_delimeter songs = Inr songs"
| "walk_loop fs ((path, subdirs, files) # rest) new_song_delimeter songs =
     (case files_loop fs path files new_song_delimeter songs of
        Inl e \<Rightarrow> Inl e
      | Inr songs' \<Rightarrow> walk_loop fs rest new_song_delimeter songs')"

text \<open>
  \<open>os_walk\<close> is the directory listing of the operating system. The result is the new
  file store together with the returned string. \<^verbatim>\<open>"/ " * n\<close> is empty for \<open>n \<le> 0\<close>.
\<close>

definition create_single_file_dataset ::
  "(string \<Rightarrow> (string \<times> string list \<times> string list) list) \<Rightarrow> files \<Rightarrow>
     string \<Rightarrow> string \<Rightarrow> int \<Rightarrow> error + (files \<times> string)" where
  "create_single_file_dataset os_walk fs dataset_path dataset_file_path sequence_length =
     (let new_song_delimeter = concat (replicate (nat sequence_length) ''/ '')
      in case walk_loop fs (os_walk dataset_path) new_song_delimeter [] of
           Inl e \<Rightarrow> Inl e
         | Inr songs \<Rightarrow>
             (let songs' = py_drop_last songs
              in Inr (fs(dataset_file_path \<mapsto> Text songs'), songs')))"

subsection \<open>\<^verbatim>\<open>create_mapping\<close> and \<^verbatim>\<open>convert_songs_to_int\<close>\<close>

text \<open>
  \<^verbatim>\<open>list(set(songs))\<close> lists every distinct element once, in an order Python does not
  fix. The order is the parameter \<open>list_of_set\<close>; \<open>lists_each_once\<close> is what Python
  guarantees of it.
\<close>

definition lists_each_once :: "(string list \<Rightarrow> string list) \<Rightarrow> bool" where
  "lists_each_once list_of_set =
     (\<forall>xs. distinct (list_of_set xs) \<and> set (list_of_set xs) = set xs)"

fun mapping_loop :: "(nat \<times> string) list \<Rightarrow> dict \<Rightarrow> dict" where
  "mapping_loop [] mappings = mappings"
| "mapping_loop ((i, symbol) # rest) mappings = mapping_loop rest (dict_set mappings symbol (int i))"

definition create_mapping ::
  "(string list \<Rightarrow> string list) \<Rightarrow> files \<Rightarrow> string \<Rightarrow> string \<Rightarrow> files" where
  "create_mapping list_of_set fs songs mapping_path =
     (let songs' = py_split songs;
          vocab = list_of_set songs';
          mappings = mapping_loop (enumerate 0 vocab) []
      in fs(mapping_path \<mapsto> Json mappings))"

fun convert_loop :: "dict \<Rightarrow> string list \<Rightarrow> int list \<Rightarrow> error + int list" where
  "convert_loop mappings [] int_songs = Inr int_songs"
| "convert_loop mappings (symbol # rest) int_songs =
     (case dict_get mappings symbol of
        Inl e \<Rightarrow> Inl e
      | Inr v \<Rightarrow> convert_loop mappings rest (int_songs @ [v]))"

definition convert_songs_to_int :: "files \<Rightarrow> string \<Rightarrow> error + int list" where
  "convert_songs_to_int fs songs =
     (case json_load fs MAPPING_PATH of
        Inl e \<Rightarrow> Inl e
      | Inr mappings \<Rightarrow> convert_loop mappings (py_split songs) [])"

text \<open>
  \<^verbatim>\<open>generate_training_sequences\<close> up to the integer windows and targets; the
  one-hot encoding that follows is keras'. The loop runs over
  \<^verbatim>\<open>range(len(int_songs) - sequence_length)\<close>.
\<close>

fun sequences_loop ::
  "int list \<Rightarrow> int \<Rightarrow> nat list \<Rightarrow> int list list \<Rightarrow> int list \<Rightarrow>
     error + (int list list \<times> int list)" where
  "sequences_loop int_songs sequence_length [] inputs targets = Inr (inputs, targets)"
| "sequences_loop int_songs sequence_length (i # rest) inputs targets =
     (case py_index int_songs (int i + sequence_length) of
        Inl e \<Rightarrow> Inl e
      | Inr target \<Rightarrow>
          sequences_loop int_songs sequence_length rest
            (inputs @ [py_slice int_songs (int i) (int i + sequence_length)])
            (targets @ [target]))"

definition generate_training_sequences ::
  "files \<Rightarrow> int \<Rightarrow> error + (int list list \<times> int list)" where
  "generate_training_sequences fs sequence_length =
     (case load fs SINGLE_FILE_DATASET of
        Inl e \<Rightarrow> Inl e
      | Inr songs \<Rightarrow>
          (case convert_songs_to_int fs songs of
             Inl e \<Rightarrow> Inl e
           | Inr int_songs \<Rightarrow>
               (let num_sequences = int (length int_songs) - sequence_length
                in sequences_loop int_songs sequence_length [0..<nat num_sequences] [] [])))"

subsection \<open>\<^verbatim>\<open>preprocess\<close>\<close>

text \<open>
  The loop over \<^verbatim>\<open>enumerate(songs)\<close>, the songs being what the loader parsed.
  \<open>transpose_song\<close> is the transposer (\<^verbatim>\<open>transpose\<close> in the source): it lives on the library's key analysis and interval
  arithmetic, so it is a parameter, and it may raise. \<open>save_path i\<close> is the path
  \<^verbatim>\<open>os.path.join(SAVE_DIR, str(i))\<close> the song of index \<open>i\<close> is written to.
\<close>

definition save_path :: "nat \<Rightarrow> string" where
  "save_path i = os_path_join SAVE_DIR (str_int (int i))"

fun preprocess_loop ::
  "('a song \<Rightarrow> error + 'a song) \<Rightarrow> (nat \<times> 'a song) list \<Rightarrow> files \<Rightarrow> error + files" where
  "preprocess_loop transpose_song [] fs = Inr fs"
| "preprocess_loop transpose_song ((i, song) # rest) fs =
     (if \<not> has_acceptable_durations song ACCEPTABLE_DURATIONS
      then preprocess_loop transpose_song rest fs
      else case transpose_song song of
             Inl e \<Rightarrow> Inl e
           | Inr song' \<Rightarrow>
               (case encode_song song' (1 / 4) of
                  Inl e \<Rightarrow> Inl e
                | Inr encoded_song \<Rightarrow>
                    preprocess_loop transpose_song rest
                      (fs(save_path i \<mapsto> Text encoded_song))))"

definition preprocess ::
  "('a song \<Rightarrow> error + 'a song) \<Rightarrow> 'a song list \<Rightarrow> files \<Rightarrow> error + files" where
  "preprocess transpose_song songs fs = preprocess_loop transpose_song (enumerate 0 songs) fs"

section \<open>The generator and the renderer (\<^verbatim>\<open>app.py\<close>)\<close>

text \<open>
  What the generator asks of keras and numpy. \<open>model_predict seed n\<close> stands for
  \<^verbatim>\<open>to_categorical(seed, num_classes=n)\<close> followed by \<^verbatim>\<open>model.predict(...)[0]\<close>: a
  probability vector of a type the model does not look into, or nothing when the
  library raises. \<open>sample_with_temperature\<close> stands for the method of that name, whose
  body is floating-point \<^verbatim>\<open>log\<close> and \<^verbatim>\<open>exp\<close> and a pseudo-random draw: it returns an
  index (or raises, as numpy does on a vector that does not sum to one) and the next
  state of the random generator.
\<close>

record ('p, 'g) library =
  model_predict :: "int list \<Rightarrow> nat \<Rightarrow> 'p option"
  sample_with_temperature :: "'p \<Rightarrow> rat \<Rightarrow> 'g \<Rightarrow> int option \<times> 'g"

text \<open>
  The variables of the sampling loop. \<open>gen_seed\<close> and \<open>gen_melody\<close> are the lists
  \<^verbatim>\<open>seed\<close> and \<^verbatim>\<open>melody\<close>, \<open>gen_rng\<close> the state of numpy's generator. \<open>gen_drawn\<close>
  is not a variable of the source: it records the \<^verbatim>\<open>output_symbol\<close> of every
  iteration that reached the boundary test, so that iterations can be counted.
\<close>

record 'g gen_state =
  gen_seed :: "int list"
  gen_melody :: "string list"
  gen_rng :: 'g
  gen_drawn :: "string list"

text \<open>\<^verbatim>\<open>[k for k, v in self._mappings.items() if v == output_int]\<close>\<close>

definition keys_of_value :: "dict \<Rightarrow> int \<Rightarrow> string list" where
  "keys_of_value mappings output_int = map fst (filter (\<lambda>(k, v). v = output_int) mappings)"

text \<open>The loop \<^verbatim>\<open>for _ in range(num_steps)\<close>; the first argument counts the iterations left.\<close>

fun generate_loop ::
  "nat \<Rightarrow> ('p, 'g) library \<Rightarrow> dict \<Rightarrow> int \<Rightarrow> rat \<Rightarrow> 'g gen_state \<Rightarrow> error + 'g gen_state" where
  "generate_loop 0 lib mappings max_sequence_length temperature st = Inr st"
| "generate_loop (Suc n) lib mappings max_sequence_length temperature st =
     (let seed = py_slice_from_neg max_sequence_length (gen_seed st)
      in case model_predict lib seed (length mappings) of
           None \<Rightarrow> Inl LibraryError
         | Some probabilities \<Rightarrow>
             (case sample_with_temperature lib probabilities temperature (gen_rng st) of
                (None, rng') \<Rightarrow> Inl LibraryError
              | (Some output_int, rng') \<Rightarrow>
                  (case keys_of_value mappings output_int of
                     [] \<Rightarrow> Inl IndexError
                   | output_symbol # _ \<Rightarrow>
                       if output_symbol = ''/''
                       then Inr \<lparr>gen_seed = seed @ [output_int], gen_melody = gen_melody st,
                                 gen_rng = rng', gen_drawn = gen_drawn st @ [output_symbol]\<rparr>
                       else generate_loop n lib mappings max_sequence_length temperature
                              \<lparr>gen_seed = seed @ [output_int],
                               gen_melody = gen_melody st @ [output_symbol],
                               gen_rng = rng', gen_drawn = gen_drawn st @ [output_symbol]\<rparr>)))"

text \<open>\<^verbatim>\<open>[self._mappings[symbol] for symbol in seed]\<close>: the first missing key raises.\<close>

fun map_seed :: "dict \<Rightarrow> string list \<Rightarrow> error + int list" where
  "map_seed mappings [] = Inr []"
| "map_seed mappings (symbol # rest) =
     (case dict_get mappings symbol of
        Inl e \<Rightarrow> Inl e
      | Inr v \<Rightarrow> (case map_seed mappings rest of Inl e \<Rightarrow> Inl e | Inr vs \<Rightarrow> Inr (v # vs)))"

definition start_symbols :: "string list" where
  "start_symbols = replicate (nat SEQUENCE_LENGTH) ''/''"

text \<open>
  \<^verbatim>\<open>generate_melody\<close>, once with the whole final state (\<open>generate_melody_run\<close>) and
  once as the source returns it, the melody alone.
\<close>

definition generate_melody_run ::
  "('p, 'g) library \<Rightarrow> dict \<Rightarrow> 'g \<Rightarrow> string \<Rightarrow> int \<Rightarrow> int \<Rightarrow> rat \<Rightarrow> error + 'g gen_state" where
  "generate_melody_run lib mappings rng seed num_steps max_sequence_length temperature =
     (let seed' = py_split seed;
          melody = seed';
          seed'' = start_symbols @ seed'
      in case map_seed mappings seed'' of
           Inl e \<Rightarrow> Inl e
         | Inr ids \<Rightarrow>
             generate_loop (nat num_steps) lib mappings max_sequence_length temperature
               \<lparr>gen_seed = ids, gen_melody = melody, gen_rng = rng, gen_drawn = []\<rparr>)"

definition generate_melody ::
  "('p, 'g) library \<Rightarrow> dict \<Rightarrow> 'g \<Rightarrow> string \<Rightarrow> int \<Rightarrow> int \<Rightarrow> rat \<Rightarrow> error + string list" where
  "generate_melody lib mappings rng seed num_steps max_sequence_length temperature =
     (case generate_melody_run lib mappings rng seed num_steps max_sequence_length temperature of
        Inl e \<Rightarrow> Inl e
      | Inr st \<Rightarrow> Inr (gen_melody st))"

subsection \<open>\<^verbatim>\<open>save_melody\<close>\<close>

text \<open>
  The variables of the rendering loop; \<open>stream\<close> is the music21 stream, a list of the
  events appended to it, where \<open>Note p q\<close> stands for
  \<^verbatim>\<open>m21.note.Note(p, quarterLength=q)\<close> and \<open>Rest q\<close> for \<^verbatim>\<open>m21.note.Rest(quarterLength=q)\<close>.
\<close>

record render_state =
  start_symbol :: "string option"
  step_counter :: int
  stream :: "event list"

fun render_loop :: "rat \<Rightarrow> nat \<Rightarrow> (nat \<times> string) list \<Rightarrow> render_state \<Rightarrow> error + render_state" where
  "render_loop step_duration len [] st = Inr st"
| "render_loop step_duration len ((i, symbol) # rest) st =
     (if symbol \<noteq> ''_'' \<or> i + 1 = len then
        (case start_symbol st of
           None \<Rightarrow> render_loop step_duration len rest (st\<lparr>start_symbol := Some symbol\<rparr>)
         | Some s \<Rightarrow>
             (let quarter_length_duration = step_duration * of_int (step_counter st)
              in if s = ''r''
                 then render_loop step_duration len rest
                        (st\<lparr>stream := stream st @ [Rest quarter_length_duration],
                            step_counter := 1, start_symbol := Some symbol\<rparr>)
                 else case int_of_str s of
                        Inl e \<Rightarrow> Inl e
                      | Inr p \<Rightarrow>
                          render_loop step_duration len rest
                            (st\<lparr>stream := stream st @ [Note p quarter_length_duration],
                                step_counter := 1, start_symbol := Some symbol\<rparr>)))
      else render_loop step_duration len rest (st\<lparr>step_counter := step_counter st + 1\<rparr>))"

text \<open>The result is the stream handed to \<^verbatim>\<open>stream.write\<close>.\<close>

definition save_melody :: "string list \<Rightarrow> rat \<Rightarrow> error + event list" where
  "save_melody melody step_duration =
     (case render_loop step_duration (length melody) (enumerate 0 melody)
             \<lparr>start_symbol = None, step_counter = 1, stream = []\<rparr> of
        Inl e \<Rightarrow> Inl e
      | Inr st \<Rightarrow> Inr (stream st))"

subsection \<open>The route \<^verbatim>\<open>/predict\<close>\<close>

text \<open>
  \<^verbatim>\<open>predict\<close> builds a generator (which loads the vocabulary file), generates from the
  form's seed with 500 steps, the context length 64 and the temperature 0.3, renders the
  melody and shows it. The result is the stream written and the text shown.
\<close>

definition predict ::
  "('p, 'g) library \<Rightarrow> files \<Rightarrow> 'g \<Rightarrow> string \<Rightarrow> error + (event list \<times> string)" where
  "predict lib fs rng seed =
     (case json_load fs MAPPING_PATH of
        Inl e \<Rightarrow> Inl e
      | Inr mappings \<Rightarrow>
          (case generate_melody lib mappings rng seed 500 SEQUENCE_LENGTH (3 / 10) of
             Inl e \<Rightarrow> Inl e
           | Inr melody \<Rightarrow>
               (case save_melody melody (1 / 4) of
                  Inl e \<Rightarrow> Inl e
                | Inr written \<Rightarrow>
                    Inr (written, ''The generated melody: '' @ py_join '' '' melody))))"

section \<open>The wording of the specification\<close>

text \<open>
  The definitions of this section are not translated from the source. They write down
  what the specification says, to be compared with the code, and a few notions the
  statements below need.
\<close>

text \<open>A token as \<^verbatim>\<open>split()\<close> yields it: not empty and free of white space.\<close>

definition is_token :: "string \<Rightarrow> bool" where
  "is_token t = (t \<noteq> [] \<and> list_all (\<lambda>c. \<not> is_space c) t)"






text \<open>The files \<^verbatim>\<open>os.walk\<close> leads the merger to, in the order it visits them.\<close>

definition walked_paths :: "(string \<times> string list \<times> string list) list \<Rightarrow> string list" where
  "walked_paths entries =
     concat (map (\<lambda>(path, subdirs, files). map (os_path_join path) files) entries)"

section \<open>Splitting and joining token strings\<close>

lemma split_from_word:
  "list_all (\<lambda>c. \<not> is_space c) w \<Longrightarrow> split_from cur (w @ rest) = split_from (cur @ w) rest"
  by (induction w arbitrary: cur) auto

lemma split_from_space:
  "is_space c \<Longrightarrow> split_from cur (xs @ c # ys) = split_from cur xs @ split_from [] ys"
  by (induction xs arbitrary: cur) auto

lemma py_split_append_space:
  "is_space c \<Longrightarrow> py_split (xs @ c # ys) = py_split xs @ py_split ys"
  by (simp add: py_split_def split_from_space)

lemma py_split_token: "is_token t \<Longrightarrow> py_split t = [t]"
  using split_from_word [of t "[]" "[]"] by (simp add: py_split_def is_token_def)

lemma is_space_blank: "is_space CHR '' ''"
  by (simp add: is_space_def)


lemma str_nat_digits: "list_all is_digit (str_nat n)"
proof (induction n rule: str_nat.induct)
  case (1 n)
  have d: "\<And>k. k < 10 \<Longrightarrow> is_digit (''0123456789'' ! k)"
  proof -
    fix k :: nat assume "k < 10"
    then have "k \<in> {0,1,2,3,4,5,6,7,8,9}" by auto
    then show "is_digit (''0123456789'' ! k)"
      by (auto simp: is_digit_def)
  qed
  show ?case
  proof (cases "n < 10")
    case True
    then show ?thesis by (subst str_nat.simps) (simp add: d)
  next
    case False
    with 1 show ?thesis by (subst str_nat.simps) (simp add: d)
  qed
qed

lemma str_nat_nonempty: "str_nat n \<noteq> []"
  by (subst str_nat.simps) simp



section \<open>The encoder truncates (C3, C10)\<close>








lemma durations_loop_iff:
  "durations_loop events = list_all (\<lambda>e. quarterLength e \<in> set ACCEPTABLE_DURATIONS) events"
  by (induction events) auto










section \<open>The corpus merger (C9)\<close>

lemma files_loop_all:
  "list_all2 (\<lambda>p s. fs p = Some (Text s)) (map (os_path_join path) fls) contents \<Longrightarrow>
     files_loop fs path fls delim songs = Inr (songs @ concat (map (\<lambda>s. s @ '' '' @ delim) contents))"
proof (induction fls arbitrary: songs contents)
  case Nil
  then show ?case by simp
next
  case (Cons f fls)
  then obtain c cs where "contents = c # cs" "fs (os_path_join path f) = Some (Text c)"
    "list_all2 (\<lambda>p s. fs p = Some (Text s)) (map (os_path_join path) fls) cs"
    by (auto simp: list_all2_Cons1)
  with Cons.IH show ?case by (simp add: load_def)
qed

lemma walk_loop_all:
  "list_all2 (\<lambda>p s. fs p = Some (Text s)) (walked_paths entries) contents \<Longrightarrow>
     walk_loop fs entries delim songs = Inr (songs @ concat (map (\<lambda>s. s @ '' '' @ delim) contents))"
proof (induction entries arbitrary: songs contents)
  case Nil
  then show ?case by (simp add: walked_paths_def)
next
  case (Cons entry entries)
  obtain path subdirs fls where entry: "entry = (path, subdirs, fls)" by (cases entry) auto
  with Cons.prems have "list_all2 (\<lambda>p s. fs p = Some (Text s))
      (map (os_path_join path) fls @ walked_paths entries) contents"
    by (simp add: walked_paths_def)
  then obtain cs1 cs2 where split: "contents = cs1 @ cs2"
    and one: "list_all2 (\<lambda>p s. fs p = Some (Text s)) (map (os_path_join path) fls) cs1"
    and two: "list_all2 (\<lambda>p s. fs p = Some (Text s)) (walked_paths entries) cs2"
    by (auto simp: list_all2_append1)
  show ?case
    using files_loop_all [OF one] Cons.IH [OF two] entry split by simp
qed

lemma py_split_delimiter:
  "py_split (concat (replicate n ''/ '') @ rest) = replicate n ''/'' @ py_split rest"
proof (induction n)
  case 0
  then show ?case by simp
next
  case (Suc n)
  have tok: "is_token ''/''" by (simp add: is_token_def is_space_def)
  have "py_split (''/'' @ CHR '' '' # (concat (replicate n ''/ '') @ rest))
          = py_split ''/'' @ py_split (concat (replicate n ''/ '') @ rest)"
    by (rule py_split_append_space [OF is_space_blank])
  with Suc show ?case by (simp add: py_split_token [OF tok])
qed

lemma py_split_chunk:
  "py_split ((s @ '' '' @ concat (replicate n ''/ '')) @ rest)
     = py_split s @ replicate n ''/'' @ py_split rest"
  using py_split_append_space [OF is_space_blank, of s "concat (replicate n ''/ '') @ rest"]
  by (simp add: py_split_delimiter)

lemma py_split_chunks:
  "py_split (concat (map (\<lambda>s. s @ '' '' @ concat (replicate n ''/ '')) contents))
     = concat (map (\<lambda>s. py_split s @ replicate n ''/'') contents)"
proof (induction contents)
  case Nil
  then show ?case by (simp add: py_split_def)
next
  case (Cons c cs)
  then show ?case using py_split_chunk [of c n] by simp
qed

lemma delimiter_last: "n \<noteq> 0 \<Longrightarrow> last (concat (replicate n ''/ '')) = CHR '' ''"
  by (induction n) (auto simp: last_append)

lemma chunk_last: "last (s @ '' '' @ concat (replicate n ''/ '')) = CHR '' ''"
  by (cases n) (simp_all add: last_append delimiter_last)

lemma chunks_last:
  "contents \<noteq> [] \<Longrightarrow>
     last (concat (map (\<lambda>s. s @ '' '' @ concat (replicate n ''/ '')) contents)) = CHR '' ''"
proof (induction contents rule: rev_induct)
  case Nil
  then show ?case by simp
next
  case (snoc c cs)
  show ?case using chunk_last [of c n] by (simp add: last_append)
qed

lemma py_drop_last_butlast: "py_drop_last xs = butlast xs"
  by (simp add: py_drop_last_def butlast_conv_take)

lemma py_split_drop_trailing_space:
  assumes "xs = [] \<or> last xs = CHR '' ''"
  shows "py_split (py_drop_last xs) = py_split xs"
proof (cases "xs = []")
  case True
  then show ?thesis by (simp add: py_drop_last_def)
next
  case False
  with assms have "xs = butlast xs @ [CHR '' '']"
    by (metis append_butlast_last_id)
  then have "py_split xs = py_split (butlast xs) @ py_split []"
    using py_split_append_space [OF is_space_blank, of "butlast xs" "[]"] by simp
  then show ?thesis by (simp add: py_drop_last_butlast py_split_def)
qed

text \<open>
  C9. When \<open>per_song\<close> are the contents of the token files the walk visits, in that
  order, \<^verbatim>\<open>create_single_file_dataset\<close> returns and writes one string: every song
  followed by a blank and by \<^verbatim>\<open>"/ "\<close> repeated \<^verbatim>\<open>sequence_length\<close> times, without the
  last character, which is a blank. Split at white space it is every song's tokens
  followed by exactly \<^verbatim>\<open>sequence_length\<close> boundary tokens.
\<close>

theorem create_single_file_dataset_merges:
  assumes "list_all2 (\<lambda>p s. fs p = Some (Text s)) (walked_paths (os_walk dataset_path)) per_song"
  shows "\<exists>merged.
           create_single_file_dataset os_walk fs dataset_path dataset_file_path sequence_length
             = Inr (fs(dataset_file_path \<mapsto> Text merged), merged)
         \<and> merged = py_drop_last (concat (map (\<lambda>s. s @ '' '' @ concat (replicate (nat sequence_length) ''/ '')) per_song))
         \<and> (per_song = [] \<or> merged @ '' '' = concat (map (\<lambda>s. s @ '' '' @ concat (replicate (nat sequence_length) ''/ '')) per_song))
         \<and> py_split merged = concat (map (\<lambda>s. py_split s @ replicate (nat sequence_length) ''/'') per_song)"
proof -
  let ?n = "nat sequence_length"
  let ?all = "concat (map (\<lambda>s. s @ '' '' @ concat (replicate ?n ''/ '')) per_song)"
  have run: "create_single_file_dataset os_walk fs dataset_path dataset_file_path sequence_length
             = Inr (fs(dataset_file_path \<mapsto> Text (py_drop_last ?all)), py_drop_last ?all)"
    using walk_loop_all [OF assms, of "concat (replicate ?n ''/ '')" "[]"]
    by (simp add: create_single_file_dataset_def Let_def)
  have last: "per_song = [] \<or> last ?all = CHR '' ''"
    using chunks_last [of per_song ?n] by blast
  have filled: "per_song \<noteq> [] \<Longrightarrow> ?all \<noteq> []"
    by (cases per_song) simp_all
  have restored: "per_song = [] \<or> py_drop_last ?all @ '' '' = ?all"
  proof (cases "per_song = []")
    case True
    then show ?thesis by simp
  next
    case False
    with last filled have "?all \<noteq> []" and "last ?all = CHR '' ''"
      by simp_all
    then have "butlast ?all @ [CHR '' ''] = ?all"
      by (metis append_butlast_last_id)
    then show ?thesis by (simp only: py_drop_last_butlast) simp
  qed
  have "?all = [] \<or> last ?all = CHR '' ''"
    using last by (cases per_song) simp_all
  then have "py_split (py_drop_last ?all) = py_split ?all"
    by (rule py_split_drop_trailing_space)
  then have toks: "py_split (py_drop_last ?all) = concat (map (\<lambda>s. py_split s @ replicate ?n ''/'') per_song)"
    using py_split_chunks [of ?n per_song] by simp
  show ?thesis using run restored toks by blast
qed

theorem create_single_file_dataset_merges_witness:
  "\<exists>merged.
     create_single_file_dataset (\<lambda>d. [(''Dataset'', [], [''0'', ''1''])])
        [''Dataset/0'' \<mapsto> Text ''60 _'', ''Dataset/1'' \<mapsto> Text ''r'']
        ''Dataset'' ''Dataset_file'' 2
       = Inr ([''Dataset/0'' \<mapsto> Text ''60 _'', ''Dataset/1'' \<mapsto> Text ''r'',
               ''Dataset_file'' \<mapsto> Text merged], merged)
   \<and> merged = ''60 _ / / r / /''
   \<and> py_split merged = [''60'', ''_'', ''/'', ''/'', ''r'', ''/'', ''/'']"
proof -
  let ?fs = "[''Dataset/0'' \<mapsto> Text ''60 _'', ''Dataset/1'' \<mapsto> Text ''r'']"
  have present: "list_all2 (\<lambda>p s. ?fs p = Some (Text s))
      (walked_paths ((\<lambda>d. [(''Dataset'', [], [''0'', ''1''])]) ''Dataset'')) [''60 _'', ''r'']"
    by (simp add: walked_paths_def os_path_join_def)
  have joined: "py_drop_last (concat (map (\<lambda>s. s @ '' '' @ concat (replicate (nat 2) ''/ ''))
                 [''60 _'', ''r''])) = ''60 _ / / r / /''"
    by code_simp
  have tokens: "concat (map (\<lambda>s. py_split s @ replicate (nat 2) ''/'') [''60 _'', ''r''])
                  = [''60'', ''_'', ''/'', ''/'', ''r'', ''/'', ''/'']"
    by code_simp
  from create_single_file_dataset_merges
         [where fs = ?fs and os_walk = "\<lambda>d. [(''Dataset'', [], [''0'', ''1''])]"
            and dataset_path = "''Dataset''" and per_song = "[''60 _'', ''r'']"
            and dataset_file_path = "''Dataset_file''" and sequence_length = 2, OF present]
       joined tokens
  show ?thesis by auto
qed

section \<open>Encoding and rendering (C1)\<close>

text \<open>
  C1 does not hold of the code. The renderer emits an event only when it meets the next
  onset or the last token, and at the last token it emits the event before it and then
  stops: the last token is never counted and the last onset never emitted. A quarter
  note encoded as four tokens comes back three steps long, and of the three events
  encoded as \<^verbatim>\<open>60 r _ 62\<close> the last one is missing.
\<close>

theorem save_melody_loses_last_step:
  "encode_song \<lparr>notesAndRests = [Note 60 1], score_rest = ()\<rparr> (1 / 4) = Inr ''60 _ _ _''
   \<and> save_melody (py_split ''60 _ _ _'') (1 / 4) = Inr [Note 60 (3 / 4)]
   \<and> encode_song \<lparr>notesAndRests = [Note 60 (1 / 4), Rest (1 / 2), Note 62 (1 / 4)],
                    score_rest = ()\<rparr> (1 / 4) = Inr ''60 r _ 62''
   \<and> save_melody (py_split ''60 r _ 62'') (1 / 4) = Inr [Note 60 (1 / 4), Rest (1 / 2)]"
  by code_simp

section \<open>The corpus filter (C4)\<close>

lemma digit_char_inj:
  assumes "a < 10" "b < 10" "''0123456789'' ! a = ''0123456789'' ! b"
  shows "a = b"
proof -
  have "distinct ''0123456789''" by simp
  moreover have "a < length ''0123456789''" "b < length ''0123456789''"
    using assms by simp_all
  ultimately show ?thesis
    using assms(3) by (simp only: nth_eq_iff_index_eq)
qed

lemma str_nat_length_one: "n < 10 \<Longrightarrow> length (str_nat n) = 1"
  by (subst str_nat.simps) simp

lemma str_nat_length_more: "\<not> n < 10 \<Longrightarrow> 2 \<le> length (str_nat n)"
proof -
  assume "\<not> n < 10"
  moreover have "1 \<le> length (str_nat (n div 10))"
    using str_nat_nonempty [of "n div 10"] by (cases "str_nat (n div 10)") simp_all
  ultimately show ?thesis by (subst str_nat.simps) simp
qed

lemma str_nat_inj: "str_nat a = str_nat b \<Longrightarrow> a = b"
proof (induction a arbitrary: b rule: str_nat.induct)
  case (1 a)
  show ?case
  proof (cases "a < 10")
    case True
    then have "length (str_nat b) = 1"
      using "1.prems" str_nat_length_one [of a] by simp
    then have b: "b < 10"
      using str_nat_length_more [of b] by fastforce
    from True b "1.prems" have "''0123456789'' ! a = ''0123456789'' ! b"
      by (simp add: str_nat.simps [of a] str_nat.simps [of b])
    with True b show ?thesis by (rule digit_char_inj)
  next
    case False
    then have "2 \<le> length (str_nat b)"
      using "1.prems" str_nat_length_more [of a] by simp
    then have b: "\<not> b < 10"
      using str_nat_length_one [of b] by fastforce
    from False b "1.prems"
    have "str_nat (a div 10) @ [''0123456789'' ! (a mod 10)]
            = str_nat (b div 10) @ [''0123456789'' ! (b mod 10)]"
      by (simp add: str_nat.simps [of a] str_nat.simps [of b])
    then have hi: "str_nat (a div 10) = str_nat (b div 10)"
      and lo: "''0123456789'' ! (a mod 10) = ''0123456789'' ! (b mod 10)"
      by simp_all
    from "1.IH" [OF False hi] have "a div 10 = b div 10" .
    moreover from lo have "a mod 10 = b mod 10"
      by (intro digit_char_inj) simp_all
    ultimately show ?thesis
      by (metis div_mult_mod_eq)
  qed
qed

lemma str_nat_no_slash: "hd (str_nat n) \<noteq> CHR ''/''"
proof -
  have "is_digit (hd (str_nat n))"
    using str_nat_digits [of n] str_nat_nonempty [of n]
    by (cases "str_nat n") simp_all
  then show ?thesis by (auto simp: is_digit_def)
qed

lemma save_path_eq: "save_path i = ''Dataset/'' @ str_nat i"
  using str_nat_nonempty [of i] str_nat_no_slash [of i]
  by (simp add: save_path_def os_path_join_def SAVE_DIR_def str_int_def)

lemma save_path_inj:
  "save_path i = save_path j \<Longrightarrow> i = j"
  by (simp only: save_path_eq) (simp add: str_nat_inj)

lemma preprocess_loop_effect:
  assumes "preprocess_loop tr (enumerate n songs) fs = Inr fs'"
  shows "(\<forall>p. (\<forall>i<length songs. p \<noteq> save_path (n + i)) \<longrightarrow> fs' p = fs p)
       \<and> (\<forall>i<length songs.
            if has_acceptable_durations (songs ! i) ACCEPTABLE_DURATIONS
            then \<exists>song' encoded. tr (songs ! i) = Inr song'
                   \<and> encode_song song' (1 / 4) = Inr encoded
                   \<and> fs' (save_path (n + i)) = Some (Text encoded)
            else fs' (save_path (n + i))
                   = fs (save_path (n + i)))"
  using assms
proof (induction songs arbitrary: n fs)
  case Nil
  then show ?case by simp
next
  case (Cons song songs)
  let ?path = "save_path"
  have later: "?path n \<noteq> ?path (Suc n + i)" for i
    using save_path_inj [of n "Suc n + i"] by auto
  show ?case
  proof (cases "has_acceptable_durations song ACCEPTABLE_DURATIONS")
    case False
    with Cons.prems have run: "preprocess_loop tr (enumerate (Suc n) songs) fs = Inr fs'"
      by simp
    note ih = Cons.IH [OF run]
    from ih have frame: "\<And>p. (\<forall>i<length songs. p \<noteq> ?path (Suc n + i)) \<Longrightarrow> fs' p = fs p"
      by blast
    have first: "fs' (?path n) = fs (?path n)"
      using frame [of "?path n"] later by blast
    show ?thesis
    proof (intro conjI allI impI)
      fix p assume "\<forall>i<length (song # songs). p \<noteq> ?path (n + i)"
      then have "\<forall>i<length songs. p \<noteq> ?path (Suc n + i)"
        by (metis Suc_less_eq add_Suc_shift length_Cons add_Suc)
      then show "fs' p = fs p" by (rule frame)
    next
      fix i assume i: "i < length (song # songs)"
      show "if has_acceptable_durations ((song # songs) ! i) ACCEPTABLE_DURATIONS
            then \<exists>song' encoded. tr ((song # songs) ! i) = Inr song'
                   \<and> encode_song song' (1 / 4) = Inr encoded
                   \<and> fs' (?path (n + i)) = Some (Text encoded)
            else fs' (?path (n + i)) = fs (?path (n + i))"
      proof (cases i)
        case 0
        with False first show ?thesis by simp
      next
        case (Suc j)
        with i have j: "j < length songs" by simp
        from ih j have "if has_acceptable_durations (songs ! j) ACCEPTABLE_DURATIONS
            then \<exists>song' encoded. tr (songs ! j) = Inr song'
                   \<and> encode_song song' (1 / 4) = Inr encoded
                   \<and> fs' (save_path (Suc n + j)) = Some (Text encoded)
            else fs' (save_path (Suc n + j)) = fs (save_path (Suc n + j))"
          by blast
        with Suc show ?thesis by (auto split: if_splits)
      qed
    qed
  next
    case True
    with Cons.prems obtain song' encoded where tr: "tr song = Inr song'"
      and enc: "encode_song song' (1 / 4) = Inr encoded"
      and run: "preprocess_loop tr (enumerate (Suc n) songs) (fs(?path n \<mapsto> Text encoded)) = Inr fs'"
      by (auto split: sum.splits)
    note ih = Cons.IH [OF run]
    from ih have frame: "\<And>p. (\<forall>i<length songs. p \<noteq> ?path (Suc n + i)) \<Longrightarrow>
        fs' p = (fs(?path n \<mapsto> Text encoded)) p"
      by blast
    have first: "fs' (?path n) = Some (Text encoded)"
      using frame [of "?path n"] later by simp
    show ?thesis
    proof (intro conjI allI impI)
      fix p assume a: "\<forall>i<length (song # songs). p \<noteq> ?path (n + i)"
      then have "\<forall>i<length songs. p \<noteq> ?path (Suc n + i)"
        by (metis Suc_less_eq add_Suc_shift length_Cons add_Suc)
      then have "fs' p = (fs(?path n \<mapsto> Text encoded)) p" by (rule frame)
      moreover from a have "p \<noteq> ?path n" by fastforce
      ultimately show "fs' p = fs p" by simp
    next
      fix i assume i: "i < length (song # songs)"
      show "if has_acceptable_durations ((song # songs) ! i) ACCEPTABLE_DURATIONS
            then \<exists>song' encoded. tr ((song # songs) ! i) = Inr song'
                   \<and> encode_song song' (1 / 4) = Inr encoded
                   \<and> fs' (?path (n + i)) = Some (Text encoded)
            else fs' (?path (n + i)) = fs (?path (n + i))"
      proof (cases i)
        case 0
        with True tr enc first show ?thesis by simp
      next
        case (Suc j)
        with i have j: "j < length songs" by simp
        have other: "?path (Suc n + j) \<noteq> ?path n" using later [of j] by simp
        from ih j have "if has_acceptable_durations (songs ! j) ACCEPTABLE_DURATIONS
            then \<exists>song' encoded. tr (songs ! j) = Inr song'
                   \<and> encode_song song' (1 / 4) = Inr encoded
                   \<and> fs' (save_path (Suc n + j)) = Some (Text encoded)
            else fs' (save_path (Suc n + j))
                   = (fs(?path n \<mapsto> Text encoded)) (save_path (Suc n + j))"
          by blast
        with Suc other show ?thesis by (auto split: if_splits)
      qed
    qed
  qed
qed

lemma preprocess_loop_ignores_rejected:
  assumes "\<forall>song\<in>set songs. has_acceptable_durations song ACCEPTABLE_DURATIONS \<longrightarrow> tr song = tr' song"
  shows "preprocess_loop tr (enumerate n songs) fs = preprocess_loop tr' (enumerate n songs) fs"
  using assms
  by (induction songs arbitrary: n fs) (auto split: sum.splits)

text \<open>
  C4. \<^verbatim>\<open>has_acceptable_durations\<close> is true exactly when every element of the score's
  notes and rests has its quarter length in the whitelist 0.25, 0.5, 0.75, 1, 1.5, 2,
  3, 4, whatever list it is passed. A run of \<^verbatim>\<open>preprocess\<close> that returns has, for
  every accepted score, transposed it, encoded the result and saved that text under the
  score's index, and has left the file of every rejected score's index as it was; what
  the transposer would do on a rejected score has no bearing on the run.
\<close>

theorem filter_rejects_outside_whitelist:
  "has_acceptable_durations song acceptable_durations
     = (\<forall>e\<in>set (notesAndRests song). quarterLength e \<in> {1 / 4, 1 / 2, 3 / 4, 1, 3 / 2, 2, 3, 4})
   \<and> (preprocess tr songs fs = Inr fs' \<longrightarrow>
        (\<forall>i<length songs.
            if has_acceptable_durations (songs ! i) ACCEPTABLE_DURATIONS
            then \<exists>song' encoded. tr (songs ! i) = Inr song'
                   \<and> encode_song song' (1 / 4) = Inr encoded
                   \<and> fs' (save_path i) = Some (Text encoded)
            else fs' (save_path i)
                   = fs (save_path i)))
   \<and> ((\<forall>song\<in>set songs. has_acceptable_durations song ACCEPTABLE_DURATIONS \<longrightarrow> tr song = tr' song)
        \<longrightarrow> preprocess tr songs fs = preprocess tr' songs fs)"
proof (intro conjI impI)
  show "has_acceptable_durations song acceptable_durations
     = (\<forall>e\<in>set (notesAndRests song). quarterLength e \<in> {1 / 4, 1 / 2, 3 / 4, 1, 3 / 2, 2, 3, 4})"
    by (simp add: has_acceptable_durations_def durations_loop_iff list_all_iff ACCEPTABLE_DURATIONS_def)
next
  assume "preprocess tr songs fs = Inr fs'"
  then have "preprocess_loop tr (enumerate 0 songs) fs = Inr fs'"
    by (simp add: preprocess_def)
  from preprocess_loop_effect [OF this]
  show "\<forall>i<length songs.
            if has_acceptable_durations (songs ! i) ACCEPTABLE_DURATIONS
            then \<exists>song' encoded. tr (songs ! i) = Inr song'
                   \<and> encode_song song' (1 / 4) = Inr encoded
                   \<and> fs' (save_path i) = Some (Text encoded)
            else fs' (save_path i)
                   = fs (save_path i)"
    by (auto split: if_splits)
next
  assume "\<forall>song\<in>set songs. has_acceptable_durations song ACCEPTABLE_DURATIONS \<longrightarrow> tr song = tr' song"
  then show "preprocess tr songs fs = preprocess tr' songs fs"
    unfolding preprocess_def by (rule preprocess_loop_ignores_rejected)
qed

theorem filter_rejects_outside_whitelist_witness:
  "has_acceptable_durations \<lparr>notesAndRests = [Note 60 1], score_rest = ()\<rparr> ACCEPTABLE_DURATIONS
   \<and> \<not> has_acceptable_durations \<lparr>notesAndRests = [Note 62 (1 / 8)], score_rest = ()\<rparr> ACCEPTABLE_DURATIONS
   \<and> (\<exists>fs'. preprocess (\<lambda>s. if notesAndRests s = [Note 60 1] then Inr s else Inl LibraryError)
               [\<lparr>notesAndRests = [Note 62 (1 / 8)], score_rest = ()\<rparr>,
                \<lparr>notesAndRests = [Note 60 1], score_rest = ()\<rparr>] Map.empty = Inr fs'
            \<and> fs' (save_path 0) = None
            \<and> (\<exists>encoded. fs' (save_path 1) = Some (Text encoded)))"
proof -
  define good :: "unit song" where "good = \<lparr>notesAndRests = [Note 60 1], score_rest = ()\<rparr>"
  define bad :: "unit song" where "bad = \<lparr>notesAndRests = [Note 62 (1 / 8)], score_rest = ()\<rparr>"
  define tr :: "unit song \<Rightarrow> error + unit song"
    where "tr = (\<lambda>s. if notesAndRests s = [Note 60 1] then Inr s else Inl LibraryError)"
  define fs' :: files where "fs' = [save_path 1 \<mapsto> Text ''60 _ _ _'']"
  note th = filter_rejects_outside_whitelist
    [where song = good and acceptable_durations = ACCEPTABLE_DURATIONS and tr = tr
       and songs = "[bad, good]" and fs = Map.empty and fs' = fs' and tr' = tr]
  have good: "has_acceptable_durations good ACCEPTABLE_DURATIONS"
    using th [THEN conjunct1] by (simp add: good_def)
  have bad: "\<not> has_acceptable_durations bad ACCEPTABLE_DURATIONS"
    by (simp add: bad_def has_acceptable_durations_def ACCEPTABLE_DURATIONS_def)
  have enc: "encode_song good (1 / 4) = Inr ''60 _ _ _''"
    unfolding good_def by code_simp
  have trg: "tr good = Inr good"
    by (simp add: tr_def good_def)
  have run: "preprocess tr [bad, good] Map.empty = Inr fs'"
    by (simp add: preprocess_def good bad enc trg fs'_def)
  from th [THEN conjunct2, THEN conjunct1, THEN mp, OF run]
  have each: "\<forall>i<length [bad, good].
            if has_acceptable_durations ([bad, good] ! i) ACCEPTABLE_DURATIONS
            then \<exists>song' encoded. tr ([bad, good] ! i) = Inr song'
                   \<and> encode_song song' (1 / 4) = Inr encoded
                   \<and> fs' (save_path i) = Some (Text encoded)
            else fs' (save_path i) = Map.empty (save_path i)" .
  from each [THEN spec, of 0] bad have zero: "fs' (save_path 0) = None"
    by simp
  from each [THEN spec, of 1] good have one: "\<exists>encoded. fs' (save_path 1) = Some (Text encoded)"
    by auto
  from good bad run zero one show ?thesis
    unfolding good_def bad_def tr_def by blast
qed

section \<open>The vocabulary map (C5, C6)\<close>

lemma dict_set_fresh: "k \<notin> set (map fst m) \<Longrightarrow> dict_set m k v = m @ [(k, v)]"
  by (simp add: dict_set_def)

lemma mapping_loop_fresh:
  "distinct vocab \<Longrightarrow> set vocab \<inter> set (map fst m) = {} \<Longrightarrow>
     mapping_loop (enumerate n vocab) m = m @ zip vocab (map int [n..<n + length vocab])"
proof (induction vocab arbitrary: n m)
  case Nil
  then show ?case by simp
next
  case (Cons s vocab)
  then have fresh: "s \<notin> set (map fst m)" and d: "distinct vocab"
    and disj: "set vocab \<inter> set (map fst (m @ [(s, int n)])) = {}"
    by auto
  have "[n..<n + Suc (length vocab)] = n # [Suc n..<n + Suc (length vocab)]"
    by (rule upt_conv_Cons) simp
  then have "[n..<n + length (s # vocab)] = n # [Suc n..<Suc n + length vocab]"
    by simp
  then show ?case
    using Cons.IH [OF d disj, of "Suc n"] fresh
    by (simp add: dict_set_fresh del: upt_Suc)
qed

lemma mapping_loop_vocab:
  "distinct vocab \<Longrightarrow> mapping_loop (enumerate 0 vocab) [] = zip vocab (map int [0..<length vocab])"
  using mapping_loop_fresh [of vocab "[]" 0] by simp

lemma dense_ids: "set (map int [0..<n]) = {0..<int n}"
proof -
  have "int ` {0..<n} = {0..<int n}"
    by (auto simp: image_iff) (metis atLeastLessThan_iff nat_less_iff nat_0_le zero_le int_nat_eq)
  then show ?thesis by simp
qed

lemma create_mapping_written:
  assumes "lists_each_once list_of_set"
  shows "create_mapping list_of_set fs songs mapping_path mapping_path
           = Some (Json (zip (list_of_set (py_split songs))
                             (map int [0..<length (list_of_set (py_split songs))])))"
    and "distinct (list_of_set (py_split songs))"
    and "set (list_of_set (py_split songs)) = set (py_split songs)"
proof -
  from assms show d: "distinct (list_of_set (py_split songs))"
    and "set (list_of_set (py_split songs)) = set (py_split songs)"
    by (simp_all add: lists_each_once_def)
  show "create_mapping list_of_set fs songs mapping_path mapping_path
           = Some (Json (zip (list_of_set (py_split songs))
                             (map int [0..<length (list_of_set (py_split songs))])))"
    by (simp add: create_mapping_def mapping_loop_vocab [OF d])
qed

text \<open>
  C5. Whatever order \<^verbatim>\<open>list(set(...))\<close> lists the distinct tokens in,
  \<^verbatim>\<open>create_mapping\<close> writes a dictionary whose keys are exactly the distinct
  white-space delimited tokens of the corpus, each once, and whose values are pairwise
  distinct and are exactly the integers from 0 up to, and without, the number of
  distinct tokens.
\<close>

theorem create_mapping_bijection:
  assumes "lists_each_once list_of_set"
  shows "\<exists>mappings.
           create_mapping list_of_set fs songs mapping_path mapping_path = Some (Json mappings)
         \<and> set (map fst mappings) = set (py_split songs)
         \<and> distinct (map fst mappings)
         \<and> distinct (map snd mappings)
         \<and> set (map snd mappings) = {0..<int (card (set (py_split songs)))}
         \<and> length mappings = card (set (py_split songs))"
proof -
  let ?vocab = "list_of_set (py_split songs)"
  let ?m = "zip ?vocab (map int [0..<length ?vocab])"
  note w = create_mapping_written [OF assms]
  have len: "length ?vocab = card (set (py_split songs))"
    using distinct_card [OF w(2)] w(3) by simp
  have "map fst ?m = ?vocab" "map snd ?m = map int [0..<length ?vocab]"
    by simp_all
  moreover have "distinct (map int [0..<length ?vocab])"
    by (simp add: distinct_map)
  ultimately show ?thesis
    using w len dense_ids [of "length ?vocab"] by (intro exI [of _ ?m]) simp
qed

theorem create_mapping_bijection_witness:
  "\<exists>mappings.
     create_mapping remdups Map.empty ''60 _ _ 60 r'' MAPPING_PATH MAPPING_PATH = Some (Json mappings)
   \<and> set (map fst mappings) = {''60'', ''_'', ''r''}
   \<and> distinct (map fst mappings) \<and> distinct (map snd mappings)
   \<and> set (map snd mappings) = {0..<3}
   \<and> length mappings = 3"
proof -
  have order: "lists_each_once remdups"
    by (simp add: lists_each_once_def)
  have tokens: "py_split ''60 _ _ 60 r'' = [''60'', ''_'', ''_'', ''60'', ''r'']"
    by (simp add: py_split_def is_space_def)
  have size: "card (set (py_split ''60 _ _ 60 r'')) = 3"
    by (simp only: tokens List.card_set) simp
  from create_mapping_bijection [OF order, of Map.empty "''60 _ _ 60 r''" MAPPING_PATH] size tokens
  show ?thesis by auto
qed

lemma convert_loop_result:
  "convert_loop mappings symbols int_songs =
     (case filter (\<lambda>s. s \<notin> set (map fst mappings)) symbols of
        [] \<Rightarrow> Inr (int_songs @ map (\<lambda>s. the (map_of mappings s)) symbols)
      | missing # _ \<Rightarrow> Inl (KeyError missing))"
proof (induction symbols arbitrary: int_songs)
  case Nil
  then show ?case by simp
next
  case (Cons s symbols)
  show ?case
  proof (cases "map_of mappings s")
    case None
    then have "s \<notin> set (map fst mappings)"
      by (simp add: map_of_eq_None_iff)
    with None show ?thesis by (simp add: dict_get_def)
  next
    case (Some v)
    then have "s \<in> set (map fst mappings)"
      by (metis map_of_eq_None_iff option.distinct(1) set_map)
    with Some Cons.IH show ?thesis by (simp add: dict_get_def split: list.splits)
  qed
qed

lemma map_seed_result:
  "map_seed mappings symbols =
     (case filter (\<lambda>s. s \<notin> set (map fst mappings)) symbols of
        [] \<Rightarrow> Inr (map (\<lambda>s. the (map_of mappings s)) symbols)
      | missing # _ \<Rightarrow> Inl (KeyError missing))"
proof (induction symbols)
  case Nil
  then show ?case by simp
next
  case (Cons s symbols)
  show ?case
  proof (cases "map_of mappings s")
    case None
    then have "s \<notin> set (map fst mappings)"
      by (simp add: map_of_eq_None_iff)
    with None show ?thesis by (simp add: dict_get_def)
  next
    case (Some v)
    then have "s \<in> set (map fst mappings)"
      by (metis map_of_eq_None_iff option.distinct(1) set_map)
    with Some Cons.IH show ?thesis by (simp add: dict_get_def split: list.splits)
  qed
qed

lemma filter_missing_empty:
  "(filter (\<lambda>s. s \<notin> K) symbols = []) = (set symbols \<subseteq> K)"
  by (auto simp: filter_empty_conv)

text \<open>
  C6. Every token of a corpus is a key of the dictionary \<^verbatim>\<open>create_mapping\<close> writes
  from that corpus to \<^verbatim>\<open>MAPPING_PATH\<close>, so \<^verbatim>\<open>convert_songs_to_int\<close> on the same
  corpus returns: one id for each token, in order, the id the dictionary gives it.
\<close>

theorem convert_songs_to_int_total_on_own_mapping:
  assumes "lists_each_once list_of_set"
  shows "\<exists>mappings int_songs.
           create_mapping list_of_set fs songs MAPPING_PATH MAPPING_PATH = Some (Json mappings)
         \<and> set (py_split songs) \<subseteq> set (map fst mappings)
         \<and> convert_songs_to_int (create_mapping list_of_set fs songs MAPPING_PATH) songs = Inr int_songs
         \<and> length int_songs = length (py_split songs)
         \<and> map Some int_songs = map (map_of mappings) (py_split songs)"
proof -
  let ?vocab = "list_of_set (py_split songs)"
  define mappings where "mappings = zip ?vocab (map int [0..<length ?vocab])"
  note w = create_mapping_written [OF assms]
  have m: "create_mapping list_of_set fs songs MAPPING_PATH MAPPING_PATH = Some (Json mappings)"
    using w(1) by (simp add: mappings_def)
  have keys: "set (map fst mappings) = set (py_split songs)"
    using w(3) by (simp add: mappings_def)
  let ?ids = "map (\<lambda>s. the (map_of mappings s)) (py_split songs)"
  have none: "filter (\<lambda>s. s \<notin> set (map fst mappings)) (py_split songs) = []"
    using keys by (simp add: filter_missing_empty)
  have run: "convert_songs_to_int (create_mapping list_of_set fs songs MAPPING_PATH) songs = Inr ?ids"
    using m none by (simp add: convert_songs_to_int_def json_load_def convert_loop_result)
  have "\<forall>s\<in>set (py_split songs). map_of mappings s = Some (the (map_of mappings s))"
  proof
    fix s assume "s \<in> set (py_split songs)"
    with keys have "s \<in> fst ` set mappings" by simp
    then have "map_of mappings s \<noteq> None" by (simp add: map_of_eq_None_iff)
    then show "map_of mappings s = Some (the (map_of mappings s))" by simp
  qed
  then have same: "map Some ?ids = map (map_of mappings) (py_split songs)"
    by (simp add: comp_def)
  show ?thesis
    using m keys run same by (intro exI [of _ mappings] exI [of _ ?ids]) simp
qed

theorem convert_songs_to_int_total_witness:
  "\<exists>mappings int_songs.
     create_mapping remdups Map.empty ''60 _ _ 60 r'' MAPPING_PATH MAPPING_PATH = Some (Json mappings)
   \<and> convert_songs_to_int (create_mapping remdups Map.empty ''60 _ _ 60 r'' MAPPING_PATH) ''60 _ _ 60 r''
       = Inr int_songs
   \<and> length int_songs = 5"
proof -
  have order: "lists_each_once remdups"
    by (simp add: lists_each_once_def)
  have tokens: "length (py_split ''60 _ _ 60 r'') = 5"
    by (simp add: py_split_def is_space_def)
  from convert_songs_to_int_total_on_own_mapping [OF order, of Map.empty "''60 _ _ 60 r''"] tokens
  show ?thesis by auto
qed

section \<open>The generator (C2, C8)\<close>

lemma generate_loop_no_key_error:
  "generate_loop n lib mappings max_sequence_length temperature st \<noteq> Inl (KeyError k)"
proof (induction n arbitrary: st)
  case 0
  then show ?case by simp
next
  case (Suc n)
  show ?case
    using Suc.IH
    by (simp add: Let_def split: option.splits prod.splits list.splits)
qed

lemma generate_loop_trace:
  "generate_loop n lib mappings max_sequence_length temperature st = Inr st' \<Longrightarrow>
     \<exists>new. gen_melody st' = gen_melody st @ new
          \<and> ''/'' \<notin> set new
          \<and> length new \<le> n
          \<and> (gen_drawn st' = gen_drawn st @ new
              \<or> (gen_drawn st' = gen_drawn st @ new @ [''/''] \<and> length new < n))"
proof (induction n arbitrary: st)
  case 0
  then show ?case by simp
next
  case (Suc n)
  let ?seed = "py_slice_from_neg max_sequence_length (gen_seed st)"
  from Suc.prems obtain probabilities output_int rng' output_symbol others
    where p: "model_predict lib ?seed (length mappings) = Some probabilities"
      and s: "sample_with_temperature lib probabilities temperature (gen_rng st) = (Some output_int, rng')"
      and k: "keys_of_value mappings output_int = output_symbol # others"
    by (auto simp: Let_def split: option.splits prod.splits list.splits)
  show ?case
  proof (cases "output_symbol = ''/''")
    case True
    with Suc.prems p s k have "st' = \<lparr>gen_seed = ?seed @ [output_int], gen_melody = gen_melody st,
        gen_rng = rng', gen_drawn = gen_drawn st @ [''/'']\<rparr>"
      by (simp add: Let_def)
    then show ?thesis by (intro exI [of _ "[]"]) simp
  next
    case False
    let ?st1 = "\<lparr>gen_seed = ?seed @ [output_int], gen_melody = gen_melody st @ [output_symbol],
        gen_rng = rng', gen_drawn = gen_drawn st @ [output_symbol]\<rparr>"
    from False Suc.prems p s k
    have "generate_loop n lib mappings max_sequence_length temperature ?st1 = Inr st'"
      by (simp add: Let_def)
    from Suc.IH [OF this] obtain new where
      "gen_melody st' = gen_melody ?st1 @ new" "''/'' \<notin> set new" "length new \<le> n"
      "gen_drawn st' = gen_drawn ?st1 @ new
         \<or> (gen_drawn st' = gen_drawn ?st1 @ new @ [''/''] \<and> length new < n)"
      by blast
    with False show ?thesis
      by (intro exI [of _ "output_symbol # new"]) auto
  qed
qed

lemma generate_melody_run_trace:
  assumes "generate_melody_run lib mappings rng seed num_steps max_sequence_length temperature = Inr st"
  shows "\<exists>new. gen_melody st = py_split seed @ new
              \<and> ''/'' \<notin> set new
              \<and> length new \<le> nat num_steps
              \<and> (gen_drawn st = new \<or> gen_drawn st = new @ [''/''] \<and> length new < nat num_steps)"
proof -
  from assms obtain ids where
    run: "generate_loop (nat num_steps) lib mappings max_sequence_length temperature
            \<lparr>gen_seed = ids, gen_melody = py_split seed, gen_rng = rng, gen_drawn = []\<rparr> = Inr st"
    by (auto simp: generate_melody_run_def Let_def split: sum.splits)
  from generate_loop_trace [OF run] show ?thesis by auto
qed

lemma generate_loop_stops_at_boundary:
  assumes "model_predict lib (py_slice_from_neg max_sequence_length (gen_seed st0)) (length mappings)
             = Some probabilities"
    and "sample_with_temperature lib probabilities temperature (gen_rng st0) = (Some output_int, rng')"
    and "keys_of_value mappings output_int = ''/'' # others"
  shows "\<exists>st1. generate_loop (Suc n) lib mappings max_sequence_length temperature st0 = Inr st1
              \<and> gen_melody st1 = gen_melody st0"
  using assms by (simp add: Let_def)

text \<open>
  C2. A run of \<^verbatim>\<open>generate_melody\<close> that returns has gone through at most
  \<^verbatim>\<open>num_steps\<close> iterations (\<open>gen_drawn\<close> has one entry for each), its melody is the
  seed's tokens followed by at most \<^verbatim>\<open>num_steps\<close> new ones, none of them the
  boundary token, and the symbols drawn are exactly those new tokens, or those followed
  by one boundary token. And in whatever state an iteration starts, however many
  iterations are left: when the index sampled in it decodes to the boundary token, the
  loop returns there, with the melody as it was.
\<close>

theorem generate_melody_bounded:
  "(generate_melody_run lib mappings rng seed num_steps max_sequence_length temperature = Inr st \<longrightarrow>
      generate_melody lib mappings rng seed num_steps max_sequence_length temperature
        = Inr (gen_melody st)
      \<and> length (gen_drawn st) \<le> nat num_steps
      \<and> length (gen_melody st) \<le> length (py_split seed) + nat num_steps
      \<and> (\<exists>new. gen_melody st = py_split seed @ new
                \<and> ''/'' \<notin> set new
                \<and> (gen_drawn st = new \<or> gen_drawn st = new @ [''/''])))
   \<and> (model_predict lib (py_slice_from_neg max_sequence_length (gen_seed st0)) (length mappings)
         = Some probabilities \<longrightarrow>
       sample_with_temperature lib probabilities temperature (gen_rng st0) = (Some output_int, rng') \<longrightarrow>
       keys_of_value mappings output_int = ''/'' # others \<longrightarrow>
       (\<exists>st1. generate_loop (Suc n) lib mappings max_sequence_length temperature st0 = Inr st1
              \<and> gen_melody st1 = gen_melody st0))"
proof (intro conjI impI)
  assume run: "generate_melody_run lib mappings rng seed num_steps max_sequence_length temperature = Inr st"
  from generate_melody_run_trace [OF run] obtain new where
    new: "gen_melody st = py_split seed @ new" "''/'' \<notin> set new" "length new \<le> nat num_steps"
      "gen_drawn st = new \<or> (gen_drawn st = new @ [''/''] \<and> length new < nat num_steps)"
    by auto
  show "generate_melody lib mappings rng seed num_steps max_sequence_length temperature
           = Inr (gen_melody st)"
    using run by (simp add: generate_melody_def)
  show "length (gen_drawn st) \<le> nat num_steps"
    using new by auto
  show "length (gen_melody st) \<le> length (py_split seed) + nat num_steps"
    using new by simp
  show "\<exists>new. gen_melody st = py_split seed @ new
                \<and> ''/'' \<notin> set new
                \<and> (gen_drawn st = new \<or> gen_drawn st = new @ [''/''])"
    using new by blast
next
  assume "model_predict lib (py_slice_from_neg max_sequence_length (gen_seed st0)) (length mappings)
             = Some probabilities"
    and "sample_with_temperature lib probabilities temperature (gen_rng st0) = (Some output_int, rng')"
    and "keys_of_value mappings output_int = ''/'' # others"
  then show "\<exists>st1. generate_loop (Suc n) lib mappings max_sequence_length temperature st0 = Inr st1
              \<and> gen_melody st1 = gen_melody st0"
    by (rule generate_loop_stops_at_boundary)
qed

theorem generate_melody_bounded_witness:
  "(\<exists>st. generate_melody_run
           \<lparr>model_predict = (\<lambda>seed n. Some ()),
            sample_with_temperature = (\<lambda>p t g. (Some (int (g mod 3)), Suc g))\<rparr>
           [(''/'', 0), (''60'', 1), (''_'', 2)] (1 :: nat) ''60 _'' 5 64 (3 / 10) = Inr st
        \<and> gen_melody st = [''60'', ''_'', ''60'', ''_'']
        \<and> gen_drawn st = [''60'', ''_'', ''/'']
        \<and> length (gen_drawn st) \<le> nat 5)
   \<and> (\<exists>st1. generate_loop (Suc 7)
           \<lparr>model_predict = (\<lambda>seed n. Some ()),
            sample_with_temperature = (\<lambda>p t g. (Some (int (g mod 3)), Suc g))\<rparr>
           [(''/'', 0), (''60'', 1), (''_'', 2)] 64 (3 / 10)
           \<lparr>gen_seed = [1], gen_melody = [''60''], gen_rng = (3 :: nat), gen_drawn = []\<rparr> = Inr st1
        \<and> gen_melody st1 = [''60''])"
proof -
  let ?lib = "\<lparr>model_predict = (\<lambda>seed n. Some ()),
            sample_with_temperature = (\<lambda>p t g. (Some (int (g mod 3)), Suc g))\<rparr>"
  let ?m = "[(''/'', 0), (''60'', 1), (''_'', 2)] :: dict"
  let ?final = "\<lparr>gen_seed = replicate 60 0 @ [1, 2, 1, 2, 0],
             gen_melody = [''60'', ''_'', ''60'', ''_''], gen_rng = 4 :: nat,
             gen_drawn = [''60'', ''_'', ''/'']\<rparr>"
  let ?entry = "\<lparr>gen_seed = [1], gen_melody = [''60''], gen_rng = 3 :: nat, gen_drawn = []\<rparr>"
  have run: "generate_melody_run ?lib ?m (1 :: nat) ''60 _'' 5 64 (3 / 10) = Inr ?final"
    by code_simp
  note th = generate_melody_bounded
    [where lib = ?lib and mappings = ?m and rng = 1 and seed = "''60 _''" and num_steps = 5
       and max_sequence_length = 64 and temperature = "3 / 10" and st = ?final and st0 = ?entry
       and probabilities = "()" and output_int = 0 and rng' = 4 and others = "[]" and n = 7]
  have first: "length (gen_drawn ?final) \<le> nat 5"
    using th [THEN conjunct1, THEN mp, OF run] by blast
  have p: "model_predict ?lib (py_slice_from_neg 64 (gen_seed ?entry)) (length ?m) = Some ()"
    by simp
  have s: "sample_with_temperature ?lib () (3 / 10) (gen_rng ?entry) = (Some 0, 4)"
    by simp
  have k: "keys_of_value ?m 0 = ''/'' # []"
    by (simp add: keys_of_value_def)
  from th [THEN conjunct2, THEN mp, THEN mp, THEN mp, OF p s k]
  have second: "\<exists>st1. generate_loop (Suc 7) ?lib ?m 64 (3 / 10) ?entry = Inr st1
                  \<and> gen_melody st1 = gen_melody ?entry" .
  from run first second show ?thesis by simp
qed

text \<open>
  C8. \<^verbatim>\<open>generate_melody\<close> raises a \<^verbatim>\<open>KeyError\<close> exactly when a token of the seed,
  the start symbols put before it, is not a key of the mappings; with the vocabulary
  file loaded as \<open>mappings\<close>, \<^verbatim>\<open>convert_songs_to_int\<close> raises one exactly when a token
  of the corpus is not a key. No caller catches: an error of \<^verbatim>\<open>generate_melody\<close> is
  the result of the route \<^verbatim>\<open>predict\<close>, and an error of \<^verbatim>\<open>convert_songs_to_int\<close> the
  result of \<^verbatim>\<open>generate_training_sequences\<close>.
\<close>

theorem unmapped_token_raises:
  "((\<exists>k. generate_melody lib mappings rng seed num_steps max_sequence_length temperature
            = Inl (KeyError k))
      = (\<exists>t\<in>set (start_symbols @ py_split seed). t \<notin> set (map fst mappings)))
   \<and> (json_load fs MAPPING_PATH = Inr mappings \<longrightarrow>
        ((\<exists>k. convert_songs_to_int fs songs = Inl (KeyError k))
           = (\<exists>t\<in>set (py_split songs). t \<notin> set (map fst mappings))))
   \<and> (json_load fs MAPPING_PATH = Inr mappings \<longrightarrow>
        generate_melody lib mappings rng seed 500 SEQUENCE_LENGTH (3 / 10) = Inl e \<longrightarrow>
        predict lib fs rng seed = Inl e)
   \<and> (load fs SINGLE_FILE_DATASET = Inr songs \<longrightarrow>
        convert_songs_to_int fs songs = Inl e \<longrightarrow>
        generate_training_sequences fs sequence_length = Inl e)"
proof -
  let ?missing = "\<lambda>symbols. filter (\<lambda>s. s \<notin> set (map fst mappings)) symbols"
  have missing_iff: "(?missing symbols \<noteq> []) =
      (\<exists>t\<in>set symbols. t \<notin> set (map fst mappings))" for symbols
    by (auto simp: filter_empty_conv)
  have gen: "(\<exists>k. generate_melody lib mappings rng seed num_steps max_sequence_length temperature
            = Inl (KeyError k))
      = (\<exists>t\<in>set (start_symbols @ py_split seed). t \<notin> set (map fst mappings))"
  proof (cases "?missing (start_symbols @ py_split seed)")
    case Nil
    then have "map_seed mappings (start_symbols @ py_split seed)
        = Inr (map (\<lambda>s. the (map_of mappings s)) (start_symbols @ py_split seed))"
      by (simp only: map_seed_result) simp
    then have "\<And>k. generate_melody lib mappings rng seed num_steps max_sequence_length temperature
            \<noteq> Inl (KeyError k)"
      using generate_loop_no_key_error [of "nat num_steps" lib mappings max_sequence_length temperature]
      by (auto simp: generate_melody_def generate_melody_run_def Let_def split: sum.splits)
    with Nil missing_iff [of "start_symbols @ py_split seed"] show ?thesis by auto
  next
    case (Cons m ms)
    then have "map_seed mappings (start_symbols @ py_split seed) = Inl (KeyError m)"
      by (simp only: map_seed_result) simp
    then have "generate_melody lib mappings rng seed num_steps max_sequence_length temperature
            = Inl (KeyError m)"
      by (simp add: generate_melody_def generate_melody_run_def Let_def)
    with Cons missing_iff [of "start_symbols @ py_split seed"] show ?thesis by auto
  qed
  have conv: "(\<exists>k. convert_songs_to_int fs songs = Inl (KeyError k))
              = (\<exists>t\<in>set (py_split songs). t \<notin> set (map fst mappings))"
    if "json_load fs MAPPING_PATH = Inr mappings"
  proof (cases "?missing (py_split songs)")
    case Nil
    with that have "convert_songs_to_int fs songs
        = Inr (map (\<lambda>s. the (map_of mappings s)) (py_split songs))"
      by (simp add: convert_songs_to_int_def convert_loop_result)
    with Nil missing_iff [of "py_split songs"] show ?thesis by auto
  next
    case (Cons m ms)
    with that have "convert_songs_to_int fs songs = Inl (KeyError m)"
      by (simp add: convert_songs_to_int_def convert_loop_result)
    with Cons missing_iff [of "py_split songs"] show ?thesis by auto
  qed
  have pred: "predict lib fs rng seed = Inl e"
    if "json_load fs MAPPING_PATH = Inr mappings"
      "generate_melody lib mappings rng seed 500 SEQUENCE_LENGTH (3 / 10) = Inl e"
    using that by (simp add: predict_def)
  have train: "generate_training_sequences fs sequence_length = Inl e"
    if "load fs SINGLE_FILE_DATASET = Inr songs" "convert_songs_to_int fs songs = Inl e"
    using that by (simp add: generate_training_sequences_def)
  show ?thesis using gen conv pred train by blast
qed

theorem unmapped_token_raises_witness:
  "(\<exists>k. generate_melody
           \<lparr>model_predict = (\<lambda>seed n. Some ()),
            sample_with_temperature = (\<lambda>p t g. (Some (int (g mod 3)), Suc g))\<rparr>
           [(''/'', 0), (''60'', 1), (''_'', 2)] (1 :: nat) ''60 61'' 5 64 (3 / 10) = Inl (KeyError k))
   \<and> (\<exists>k. convert_songs_to_int [MAPPING_PATH \<mapsto> Json [(''/'', 0), (''60'', 1), (''_'', 2)]] ''60 _ r''
             = Inl (KeyError k))"
proof -
  let ?lib = "\<lparr>model_predict = (\<lambda>seed n. Some ()),
            sample_with_temperature = (\<lambda>p t g. (Some (int (g mod 3)), Suc g))\<rparr>"
  let ?m = "[(''/'', 0), (''60'', 1), (''_'', 2)] :: dict"
  let ?fs = "[MAPPING_PATH \<mapsto> Json ?m]"
  have a: "\<exists>t\<in>set (start_symbols @ py_split ''60 61''). t \<notin> set (map fst ?m)"
    by (intro bexI [of _ "''61''"]) (simp_all add: py_split_def is_space_def)
  have b: "\<exists>t\<in>set (py_split ''60 _ r''). t \<notin> set (map fst ?m)"
    by (intro bexI [of _ "''r''"]) (simp_all add: py_split_def is_space_def)
  have c: "json_load ?fs MAPPING_PATH = Inr ?m"
    by (simp add: json_load_def)
  note th = unmapped_token_raises
    [where lib = ?lib and mappings = ?m and rng = 1 and seed = "''60 61''" and num_steps = 5
       and max_sequence_length = 64 and temperature = "3 / 10" and fs = ?fs
       and songs = "''60 _ r''"]
  from th [THEN conjunct1] a th [THEN conjunct2, THEN conjunct1, THEN mp, OF c] b
  show ?thesis by blast
qed

end
